theory Spec2Isabelle
  imports Complex_Main "HOL-Library.Sublist" "HOL-Library.Multiset"
begin

section \<open>Python values used by the retrieval module\<close>

text \<open>
  A Python \<open>str\<close> is modelled as a \<open>string\<close>; one \<open>char\<close> stands for one code point
  below 256. Exceptions are values of the type \<open>exn\<close>; a computation that may raise
  returns \<open>exn + 'a\<close> with \<open>Inl\<close> for the exception.
\<close>

datatype exn = ValueError | IndexError | AssertionError | AttributeError | ExternalError

text \<open>\<open>str.isspace\<close> on one code point: the white space of \<open>str.split()\<close> and
  \<open>str.strip()\<close> (TAB, LF, VT, FF, CR, FS, GS, RS, US, SPACE, NEL, NBSP).\<close>

definition isspace :: "char \<Rightarrow> bool" where
  "isspace c = (of_char c \<in> {9, 10, 11, 12, 13, 28, 29, 30, 31, 32, 133, 160 :: nat})"

text \<open>\<open>text.split()\<close>: scan the text, collecting the current word in \<open>w\<close>; a run of
  white space ends the word, and empty words are never produced.\<close>

fun split_from :: "string \<Rightarrow> string \<Rightarrow> string list" where
  "split_from w [] = (if w = [] then [] else [w])"
| "split_from w (c # cs) =
     (if isspace c then (if w = [] then split_from [] cs else w # split_from [] cs)
      else split_from (w @ [c]) cs)"

definition str_split :: "string \<Rightarrow> string list" where
  "str_split s = split_from [] s"

text \<open>\<open>sep.join(xs)\<close>.\<close>

fun str_join :: "string \<Rightarrow> string list \<Rightarrow> string" where
  "str_join sep [] = []"
| "str_join sep [x] = x"
| "str_join sep (x # y # ys) = x @ sep @ str_join sep (y # ys)"

text \<open>\<open>s.strip()\<close>: white space removed at both ends.\<close>

definition str_strip :: "string \<Rightarrow> string" where
  "str_strip s = rev (dropWhile isspace (rev (dropWhile isspace s)))"

text \<open>\<open>range(0, stop, step)\<close> for \<open>stop \<ge> 0\<close>: a zero step raises \<open>ValueError\<close>, a
  negative step gives the empty range.\<close>

function range_from :: "nat \<Rightarrow> nat \<Rightarrow> nat \<Rightarrow> nat list" where
  "range_from i stop step =
     (if step = 0 \<or> stop \<le> i then [] else i # range_from (i + step) stop step)"
  by pat_completeness auto
termination
  by (relation "measure (\<lambda>(i, stop, step). stop - i)") auto

declare range_from.simps [simp del]

definition py_range :: "nat \<Rightarrow> int \<Rightarrow> exn + nat list" where
  "py_range stop step =
     (if step = 0 then Inl ValueError
      else if step < 0 then Inr []
      else Inr (range_from 0 stop (nat step)))"

text \<open>\<open>xs[i]\<close>: an index from \<open>-len(xs)\<close> to \<open>-1\<close> counts from the end, and one
  outside \<open>-len(xs) .. len(xs) - 1\<close> raises \<open>IndexError\<close>.\<close>

definition py_getitem :: "'a list \<Rightarrow> int \<Rightarrow> exn + 'a" where
  "py_getitem xs i =
     (if 0 \<le> i \<and> i < int (length xs) then Inr (xs ! nat i)
      else if i < 0 \<and> - int (length xs) \<le> i then Inr (xs ! nat (int (length xs) + i))
      else Inl IndexError)"

section \<open>rag.py: split_into_chunks\<close>

text \<open>The inner loop \<open>for i in range(0, len(words), chunk_size)\<close>: the window
  \<open>words[i:i + chunk_size]\<close> is joined with one space and appended unless it is empty
  after \<open>strip()\<close>.\<close>

fun chunk_words :: "string list \<Rightarrow> nat \<Rightarrow> nat list \<Rightarrow> string list \<Rightarrow> string list" where
  "chunk_words words cs [] chunks = chunks"
| "chunk_words words cs (i # is) chunks =
     (let chunk = str_join '' '' (take cs (drop i words))
      in chunk_words words cs is (if str_strip chunk \<noteq> [] then chunks @ [chunk] else chunks))"

text \<open>The outer loop \<open>for text in texts\<close>.\<close>

fun chunk_texts :: "string list \<Rightarrow> int \<Rightarrow> string list \<Rightarrow> exn + string list" where
  "chunk_texts [] cs chunks = Inr chunks"
| "chunk_texts (text # texts) cs chunks =
     (let words = str_split text in
      case py_range (length words) cs of
        Inl e \<Rightarrow> Inl e
      | Inr is \<Rightarrow> chunk_texts texts cs (chunk_words words (nat cs) is chunks))"

definition split_into_chunks :: "string list \<Rightarrow> int \<Rightarrow> exn + string list" where
  "split_into_chunks texts chunk_size = chunk_texts texts chunk_size []"

section \<open>The libraries rag.py calls\<close>

text \<open>
  A numpy array of shape \<open>(n, d)\<close> is the list of its \<open>n\<close> rows. The scalar type
  \<open>'a\<close> stands for float32 and is left open; \<open>astype(np.float32)\<close> on such an array
  changes nothing and is not written. \<open>shape[1]\<close> reads the length of a row.
\<close>

definition shape1 :: "'a list list \<Rightarrow> exn + nat" where
  "shape1 arr = (case arr of [] \<Rightarrow> Inl IndexError | row # _ \<Rightarrow> Inr (length row))"

text \<open>A loaded \<open>SentenceTransformer\<close> is its \<open>encode\<close> method: a batch of strings in,
  an array with one row per string out, or an exception.\<close>

type_synonym 'a embedder_t = "string list \<Rightarrow> exn + 'a list list"

text \<open>\<open>faiss.IndexFlatL2\<close>: the dimension \<open>d\<close> and the stored rows (\<open>ntotal\<close> is their
  number). \<open>add\<close> appends rows of dimension \<open>d\<close>. \<open>search(x, k)\<close> asserts that the
  queries have dimension \<open>d\<close> and that \<open>k > 0\<close>, and returns for each query row \<open>k\<close>
  labels: the positions of the stored rows by ascending distance (the earlier position
  first among equals), filled up with \<open>-1\<close> where fewer than \<open>k\<close> rows are stored. The
  distance is the parameter \<open>l2\<close>; the distances that \<open>search\<close> returns as well are
  not used by the caller and are left out.\<close>

record 'a index_flat =
  idx_dim :: nat
  idx_vectors :: "'a list list"

definition IndexFlatL2 :: "nat \<Rightarrow> 'a index_flat" where
  "IndexFlatL2 n = \<lparr>idx_dim = n, idx_vectors = []\<rparr>"

definition index_add :: "'a index_flat \<Rightarrow> 'a list list \<Rightarrow> exn + 'a index_flat" where
  "index_add ix xs =
     (if list_all (\<lambda>x. length x = idx_dim ix) xs
      then Inr (ix\<lparr>idx_vectors := idx_vectors ix @ xs\<rparr>)
      else Inl AssertionError)"

definition search_row :: "('a list \<Rightarrow> 'a list \<Rightarrow> 'r::linorder) \<Rightarrow> 'a list list \<Rightarrow> 'a list \<Rightarrow> nat \<Rightarrow> int list" where
  "search_row l2 vs q k =
     (let best = take k (sort_key (\<lambda>i. l2 q (vs ! i)) [0..<length vs])
      in map int best @ replicate (k - length best) (- 1))"

definition index_search ::
  "('a list \<Rightarrow> 'a list \<Rightarrow> 'r::linorder) \<Rightarrow> 'a index_flat \<Rightarrow> 'a list list \<Rightarrow> int \<Rightarrow> exn + int list list" where
  "index_search l2 ix xq k =
     (if \<not> list_all (\<lambda>q. length q = idx_dim ix) xq then Inl AssertionError
      else if k \<le> 0 then Inl AssertionError
      else Inr (map (\<lambda>q. search_row l2 (idx_vectors ix) q (nat k)) xq))"

text \<open>What \<open>load_guidelines\<close> reads from outside the process: the outcome of
  \<open>SentenceTransformer(MODEL_NAME)\<close>, whether the guidelines folder exists, its PDF files
  in \<open>glob\<close> order, and whether PyPDF2 was imported. A PDF file is the outcome of
  \<open>PdfReader(pdf_file)\<close>: an exception, or the pages, each with the outcome of its
  \<open>extract_text()\<close>.\<close>

type_synonym pdf_t = "exn + (exn + string) list"

record 'a world =
  new_embedder :: "exn + 'a embedder_t"
  guidelines_exists :: bool
  pdf_files :: "pdf_t list"
  have_pypdf2 :: bool

section \<open>rag.py: the module state and load_guidelines\<close>

text \<open>The three module globals.\<close>

record 'a rag_state =
  embedder :: "'a embedder_t option"
  faiss_index :: "'a index_flat option"
  guideline_chunks :: "string list"

definition initial_state :: "'a rag_state" where
  "initial_state = \<lparr>embedder = None, faiss_index = None, guideline_chunks = []\<rparr>"

text \<open>The page loop of one PDF. \<open>all_text\<close> is appended to in place, so the pages read
  before \<open>extract_text()\<close> raises stay in it when the handler of the file loop takes
  over.\<close>

fun read_pages :: "(exn + string) list \<Rightarrow> string list \<Rightarrow> string list" where
  "read_pages [] all_text = all_text"
| "read_pages (Inl e # pages) all_text = all_text"
| "read_pages (Inr text # pages) all_text =
     read_pages pages (if str_strip text \<noteq> [] then all_text @ [text] else all_text)"

text \<open>The file loop: a file is skipped when PyPDF2 is missing or the reader raises.\<close>

fun read_pdfs :: "bool \<Rightarrow> pdf_t list \<Rightarrow> string list \<Rightarrow> string list" where
  "read_pdfs pypdf2 [] all_text = all_text"
| "read_pdfs pypdf2 (f # fs) all_text =
     (if \<not> pypdf2 then read_pdfs pypdf2 fs all_text
      else case f of
        Inl e \<Rightarrow> read_pdfs pypdf2 fs all_text
      | Inr pages \<Rightarrow> read_pdfs pypdf2 fs (read_pages pages all_text))"

text \<open>The statements that the three fallback branches of \<open>load_guidelines\<close> repeat:
  encode a placeholder text, create an index of that dimension to which nothing is added,
  set the chunk table to one sentinel text, return \<open>False\<close>. An exception leaves through
  the outer handler with the globals as they are at that point.\<close>

definition empty_index_fallback ::
  "'a embedder_t \<Rightarrow> string \<Rightarrow> 'a rag_state \<Rightarrow> bool \<times> 'a rag_state" where
  "empty_index_fallback enc sentinel st =
     (case enc [''No guidelines available''] of
        Inl e \<Rightarrow> (False, st)
      | Inr embeddings \<Rightarrow>
          (case shape1 embeddings of
             Inl e \<Rightarrow> (False, st)
           | Inr dm \<Rightarrow>
               (False, st\<lparr>faiss_index := Some (IndexFlatL2 dm), guideline_chunks := [sentinel]\<rparr>)))"

definition no_pdf_sentinel :: string where
  "no_pdf_sentinel =
     ''No clinical guidelines available. Please add PDF files to the guidelines folder.''"

definition no_text_sentinel :: string where
  "no_text_sentinel = ''No valid text extracted from guidelines.''"

text \<open>\<open>load_guidelines\<close>: each global is assigned at the statement where the source
  assigns it, and the state returned with \<open>False\<close> after an exception is the state reached
  when it was raised.\<close>

definition load_guidelines :: "'a world \<Rightarrow> 'a rag_state \<Rightarrow> bool \<times> 'a rag_state" where
  "load_guidelines w st0 =
     (case new_embedder w of
        Inl e \<Rightarrow> (False, st0)
      | Inr enc \<Rightarrow>
          (let st1 = st0\<lparr>embedder := Some enc\<rparr> in
           if \<not> guidelines_exists w then empty_index_fallback enc no_pdf_sentinel st1
           else if pdf_files w = [] then empty_index_fallback enc no_pdf_sentinel st1
           else
             (let all_text = read_pdfs (have_pypdf2 w) (pdf_files w) [] in
              case split_into_chunks all_text 200 of
                Inl e \<Rightarrow> (False, st1)
              | Inr chunks \<Rightarrow>
                  (let st2 = st1\<lparr>guideline_chunks := chunks\<rparr> in
                   if chunks = [] then empty_index_fallback enc no_text_sentinel st2
                   else
                     (case enc chunks of
                        Inl e \<Rightarrow> (False, st2)
                      | Inr embeddings \<Rightarrow>
                          (case shape1 embeddings of
                             Inl e \<Rightarrow> (False, st2)
                           | Inr dimension \<Rightarrow>
                               (let st3 = st2\<lparr>faiss_index := Some (IndexFlatL2 dimension)\<rparr> in
                                case index_add (IndexFlatL2 dimension) embeddings of
                                  Inl e \<Rightarrow> (False, st3)
                                | Inr ix \<Rightarrow> (True, st3\<lparr>faiss_index := Some ix\<rparr>))))))))"

section \<open>rag.py: retrieve_context\<close>

definition blank_line :: string where
  "blank_line = [CHR 0x0A, CHR 0x0A]"

definition not_available :: string where
  "not_available = ''No clinical guidelines available.''"

definition retrieval_error :: string where
  "retrieval_error = ''Error retrieving clinical guidelines.''"

text \<open>The loop \<open>for idx in indices[0]\<close>: a label below \<open>len(guideline_chunks)\<close> is looked
  up with Python's indexing, so a negative label counts from the end.\<close>

fun collect_chunks :: "string list \<Rightarrow> int list \<Rightarrow> string list \<Rightarrow> exn + string list" where
  "collect_chunks chunks [] retrieved = Inr retrieved"
| "collect_chunks chunks (idx # rest) retrieved =
     (if idx < int (length chunks)
      then (case py_getitem chunks idx of
              Inl e \<Rightarrow> Inl e
            | Inr c \<Rightarrow> collect_chunks chunks rest (retrieved @ [c]))
      else collect_chunks chunks rest retrieved)"

text \<open>The body of the \<open>try\<close> block.\<close>

definition retrieve_try ::
  "('a list \<Rightarrow> 'a list \<Rightarrow> 'r::linorder) \<Rightarrow> 'a embedder_t \<Rightarrow> 'a index_flat \<Rightarrow> string list
    \<Rightarrow> string \<Rightarrow> int \<Rightarrow> exn + string" where
  "retrieve_try l2 enc ix chunks query k =
     (case enc [query] of
        Inl e \<Rightarrow> Inl e
      | Inr query_embedding \<Rightarrow>
          (case index_search l2 ix query_embedding (min k (int (length chunks))) of
             Inl e \<Rightarrow> Inl e
           | Inr indices \<Rightarrow>
               (case py_getitem indices 0 of
                  Inl e \<Rightarrow> Inl e
                | Inr row \<Rightarrow>
                    (case collect_chunks chunks row [] of
                       Inl e \<Rightarrow> Inl e
                     | Inr retrieved_chunks \<Rightarrow> Inr (str_join blank_line retrieved_chunks)))))"

definition retrieve_context ::
  "('a list \<Rightarrow> 'a list \<Rightarrow> 'r::linorder) \<Rightarrow> 'a rag_state \<Rightarrow> string \<Rightarrow> int \<Rightarrow> string" where
  "retrieve_context l2 st query k =
     (case embedder st of
        None \<Rightarrow> not_available
      | Some enc \<Rightarrow>
          (case faiss_index st of
             None \<Rightarrow> not_available
           | Some ix \<Rightarrow>
               if length (guideline_chunks st) = 0 then not_available
               else
                 (case retrieve_try l2 enc ix (guideline_chunks st) query k of
                    Inl e \<Rightarrow> retrieval_error
                  | Inr context \<Rightarrow> context)))"

section \<open>Notions used in the proofs about the chunker\<close>

text \<open>A word as \<open>split()\<close> produces it: not empty, no white space.\<close>

definition word_ok :: "string \<Rightarrow> bool" where
  "word_ok w = (w \<noteq> [] \<and> (\<forall>c\<in>set w. \<not> isspace c))"

text \<open>The chunks of one text given its words: the joined windows at the positions of
  the range.\<close>

definition windows :: "nat \<Rightarrow> string list \<Rightarrow> string list" where
  "windows cs words =
     map (\<lambda>i. str_join '' '' (take cs (drop i words))) (range_from 0 (length words) cs)"


section \<open>Notions used in the proofs about retrieval\<close>

text \<open>The chunk that the lookup of \<open>retrieve_context\<close> gives for a label that is at
  least \<open>-1\<close>: the last chunk for \<open>-1\<close>, the chunk at the label otherwise.\<close>

definition chunk_at :: "string list \<Rightarrow> int \<Rightarrow> string" where
  "chunk_at chunks i = (if i < 0 then last chunks else chunks ! nat i)"

section \<open>Example inputs\<close>

text \<open>An embedder that maps a text to a vector of two integers, one that raises on every
  call, and the squared Euclidean distance on integer vectors.\<close>

definition demo_embed :: "string \<Rightarrow> int list" where
  "demo_embed t = [int (length t), 1]"

definition demo_encode :: "int embedder_t" where
  "demo_encode ts = Inr (map demo_embed ts)"

definition failing_encode :: "int embedder_t" where
  "failing_encode ts = Inl ExternalError"

definition demo_l2 :: "int list \<Rightarrow> int list \<Rightarrow> int" where
  "demo_l2 x y = sum_list (map (\<lambda>(a, b). (a - b) * (a - b)) (zip x y))"

text \<open>A world without the guidelines folder, a world with one PDF of two pages, and a world
  with another PDF in which the embedder loads but raises when it encodes.\<close>

definition world_no_folder :: "int world" where
  "world_no_folder =
     \<lparr>new_embedder = Inr demo_encode, guidelines_exists = False, pdf_files = [],
      have_pypdf2 = True\<rparr>"

definition world_two_pages :: "int world" where
  "world_two_pages =
     \<lparr>new_embedder = Inr demo_encode, guidelines_exists = True,
      pdf_files = [Inr [Inr ''fever headache'', Inr ''cough'']], have_pypdf2 = True\<rparr>"

definition world_encode_raises :: "int world" where
  "world_encode_raises =
     \<lparr>new_embedder = Inr failing_encode, guidelines_exists = True,
      pdf_files = [Inr [Inr ''rash itching'']], have_pypdf2 = True\<rparr>"

text \<open>The states that \<open>load_guidelines\<close> reaches from the initial state in the first two
  worlds.\<close>

definition state_no_folder :: "int rag_state" where
  "state_no_folder =
     \<lparr>embedder = Some demo_encode,
      faiss_index = Some \<lparr>idx_dim = 2, idx_vectors = []\<rparr>,
      guideline_chunks = [no_pdf_sentinel]\<rparr>"

definition state_two_pages :: "int rag_state" where
  "state_two_pages =
     \<lparr>embedder = Some demo_encode,
      faiss_index = Some \<lparr>idx_dim = 2, idx_vectors = [[14, 1], [5, 1]]\<rparr>,
      guideline_chunks = [''fever headache'', ''cough'']\<rparr>"

section \<open>services/llm\_service.py: generate\_answer\<close>







section \<open>The urgency policy in the words of the specification\<close>






section \<open>The chunker\<close>

lemma split_from_words:
  "\<forall>c\<in>set w. \<not> isspace c \<Longrightarrow> x \<in> set (split_from w s) \<Longrightarrow> word_ok x"
proof (induction s arbitrary: w)
  case Nil
  then show ?case by (auto simp: word_ok_def split: if_splits)
next
  case (Cons c cs)
  show ?case
  proof (cases "isspace c")
    case True
    with Cons.prems Cons.IH [of "[]"] show ?thesis
      by (auto simp: word_ok_def split: if_splits)
  next
    case False
    with Cons.prems Cons.IH [of "w @ [c]"] show ?thesis by auto
  qed
qed

lemma str_split_words: "x \<in> set (str_split s) \<Longrightarrow> word_ok x"
  using split_from_words [of "[]" x s] by (simp add: str_split_def)

lemma split_from_word:
  "\<forall>c\<in>set v. \<not> isspace c \<Longrightarrow> split_from w (v @ s) = split_from (w @ v) s"
  by (induction v arbitrary: w) auto

lemma space_isspace: "isspace CHR '' ''"
  by (simp add: isspace_def)

lemma split_from_join:
  "\<forall>x\<in>set ws. word_ok x \<Longrightarrow> split_from [] (str_join '' '' ws) = ws"
proof (induction ws)
  case Nil
  then show ?case by simp
next
  case (Cons x ws)
  show ?case
  proof (cases ws)
    case Nil
    with Cons.prems show ?thesis
      using split_from_word [of x "[]" "[]"] by (simp add: word_ok_def)
  next
    case (Cons y ys)
    with Cons.prems Cons.IH show ?thesis
      using split_from_word [of x "[]" "CHR '' '' # str_join '' '' (y # ys)"]
      by (simp add: word_ok_def space_isspace)
  qed
qed

lemma str_split_join: "\<forall>x\<in>set ws. word_ok x \<Longrightarrow> str_split (str_join '' '' ws) = ws"
  by (simp add: str_split_def split_from_join)

lemma str_strip_empty: "str_strip s = [] \<longleftrightarrow> (\<forall>c\<in>set s. isspace c)"
proof
  assume "str_strip s = []"
  then have a: "\<forall>c\<in>set (dropWhile isspace s). isspace c"
    by (simp add: str_strip_def)
  have "dropWhile isspace s = []"
  proof (rule ccontr)
    assume n: "dropWhile isspace s \<noteq> []"
    then have "\<not> isspace (hd (dropWhile isspace s))" by (rule hd_dropWhile)
    with a n show False by (meson hd_in_set)
  qed
  then show "\<forall>c\<in>set s. isspace c" by simp
next
  assume "\<forall>c\<in>set s. isspace c"
  then have d: "dropWhile isspace s = []" by simp
  show "str_strip s = []" unfolding str_strip_def d by simp
qed

lemma join_hd: "ws \<noteq> [] \<Longrightarrow> set (hd ws) \<subseteq> set (str_join sep ws)"
  by (induction sep ws rule: str_join.induct) auto

lemma str_strip_join:
  assumes "ws \<noteq> []" "\<forall>x\<in>set ws. word_ok x"
  shows "str_strip (str_join '' '' ws) \<noteq> []"
proof -
  from assms have "word_ok (hd ws)" by simp
  then obtain c where "c \<in> set (hd ws)" "\<not> isspace c"
    by (cases "hd ws") (auto simp: word_ok_def)
  with join_hd [OF assms(1), of "'' ''"] show ?thesis
    by (auto simp: str_strip_empty)
qed


lemma range_from_bound: "j \<in> set (range_from i n w) \<Longrightarrow> j < n"
proof (induction i n w rule: range_from.induct)
  case (1 i stop step)
  then show ?case
    by (subst (asm) (2) range_from.simps) (auto split: if_splits)
qed

lemma range_from_length:
  "0 < w \<Longrightarrow> length (range_from i n w) = (n - i + w - 1) div w"
proof (induction i n w rule: range_from.induct)
  case (1 i stop step)
  show ?case
  proof (cases "stop \<le> i")
    case True
    with 1(2) show ?thesis by (subst range_from.simps) simp
  next
    case False
    with 1 have "length (range_from (i + step) stop step) = (stop - (i + step) + step - 1) div step"
      by simp
    moreover have "Suc ((stop - (i + step) + step - 1) div step) = (stop - i + step - 1) div step"
    proof (cases "stop - i \<le> step")
      case True
      with False have e: "stop - (i + step) + step - 1 = step - 1"
        and e': "stop - i + step - 1 = step + (stop - i - 1)" and l: "stop - i - 1 < step"
        by simp_all
      from 1(2) have "(step - 1) div step = 0" by simp
      moreover have "(step + (stop - i - 1)) div step = 1"
        using l 1(2) by (simp add: div_add_self1)
      ultimately show ?thesis unfolding e e' by simp
    next
      case f: False
      then have "stop - i + step - 1 = (stop - (i + step) + step - 1) + step" by simp
      then show ?thesis using 1(2) by (metis div_add_self2 less_numeral_extra(3) Suc_eq_plus1)
    qed
    ultimately show ?thesis using False 1(2) by (subst range_from.simps) simp
  qed
qed

lemma range_from_concat:
  "0 < w \<Longrightarrow> concat (map (\<lambda>j. take w (drop j xs)) (range_from i (length xs) w)) = drop i xs"
proof (induction i "length xs" w rule: range_from.induct)
  case (1 i step)
  show ?case
  proof (cases "length xs \<le> i")
    case True
    then show ?thesis by (subst range_from.simps) simp
  next
    case False
    with 1 have "concat (map (\<lambda>j. take step (drop j xs)) (range_from (i + step) (length xs) step))
        = drop (i + step) xs" by simp
    moreover have "drop (i + step) xs = drop step (drop i xs)"
      by (simp add: add.commute)
    ultimately have "take step (drop i xs) @
        concat (map (\<lambda>j. take step (drop j xs)) (range_from (i + step) (length xs) step))
        = drop i xs" by (simp only: append_take_drop_id)
    then show ?thesis using False 1(2)
      by (subst range_from.simps) simp
  qed
qed

lemma chunk_words_eq:
  assumes "\<forall>x\<in>set words. word_ok x" "0 < cs"
  shows "\<forall>i\<in>set is. i < length words \<Longrightarrow>
    chunk_words words cs is chunks = chunks @ map (\<lambda>i. str_join '' '' (take cs (drop i words))) is"
proof (induction "is" arbitrary: chunks)
  case Nil
  then show ?case by simp
next
  case (Cons i "is")
  let ?ws = "take cs (drop i words)"
  from Cons.prems assms(2) have "?ws \<noteq> []" by simp
  moreover have "\<forall>x\<in>set ?ws. word_ok x"
    using assms(1) by (meson in_set_dropD in_set_takeD)
  ultimately have "str_strip (str_join '' '' ?ws) \<noteq> []" by (rule str_strip_join)
  with Cons show ?case by simp
qed

lemma ceiling_div_nat:
  assumes "0 < w"
  shows "\<lceil>real n / real w\<rceil> = int ((n + w - 1) div w)"
proof -
  define q where "q = (n + w - 1) div w"
  have e: "q * w + (n + w - 1) mod w = n + w - 1" unfolding q_def by simp
  have m: "(n + w - 1) mod w < w" using assms by simp
  from e m assms have 1: "n \<le> q * w" and 2: "q * w < n + w" by linarith+
  have "real n \<le> real q * real w" using 1 by (metis of_nat_le_iff of_nat_mult)
  then have a: "real n / real w \<le> real q" using assms by (simp add: pos_divide_le_eq)
  have "real q * real w < real n + real w"
    using 2 by (metis of_nat_less_iff of_nat_mult of_nat_add)
  then have "(real q - 1) * real w < real n" by (simp add: algebra_simps)
  then have b: "real q - 1 < real n / real w"
    using assms by (simp add: pos_less_divide_eq)
  have "\<lceil>real n / real w\<rceil> = int q"
    using a b by (intro ceiling_unique) simp_all
  then show ?thesis by (simp add: q_def)
qed

lemma chunk_texts_eq:
  "0 < w \<Longrightarrow> chunk_texts texts w chunks =
     Inr (chunks @ concat (map (\<lambda>t. windows (nat w) (str_split t)) texts))"
proof (induction texts arbitrary: chunks)
  case Nil
  then show ?case by simp
next
  case (Cons t texts)
  have "chunk_words (str_split t) (nat w) (range_from 0 (length (str_split t)) (nat w)) chunks
      = chunks @ windows (nat w) (str_split t)"
    unfolding windows_def using Cons.prems
    by (intro chunk_words_eq) (auto simp: str_split_words range_from_bound)
  with Cons show ?case by (simp add: py_range_def)
qed

lemma split_windows:
  assumes "0 < cs" "\<forall>x\<in>set words. word_ok x"
  shows "map str_split (windows cs words) =
     map (\<lambda>i. take cs (drop i words)) (range_from 0 (length words) cs)"
proof -
  have "str_split (str_join '' '' (take cs (drop i words))) = take cs (drop i words)" for i
    using assms(2) by (intro str_split_join) (meson in_set_dropD in_set_takeD)
  then show ?thesis by (simp add: windows_def)
qed

lemma range_from_single: "0 < n \<Longrightarrow> n \<le> cs \<Longrightarrow> range_from 0 n cs = [0]"
  by (subst range_from.simps, subst range_from.simps) simp

lemma windows_single:
  assumes "ws \<noteq> []" "length ws \<le> cs"
  shows "windows cs ws = [str_join '' '' ws]"
  using assms by (simp add: windows_def range_from_single)

text \<open>
  C1: for a single text with \<open>n > 0\<close> words and a positive window size \<open>w\<close>,
  \<open>split_into_chunks\<close> returns \<open>ceil(n / w)\<close> chunks, and the words of the chunks,
  concatenated in output order, are the words of the text.
\<close>

theorem split_into_chunks_count_and_words:
  assumes "0 < w" and "str_split text \<noteq> []"
  shows "\<exists>cs. split_into_chunks [text] w = Inr cs
    \<and> int (length cs) = \<lceil>real (length (str_split text)) / real_of_int w\<rceil>
    \<and> concat (map str_split cs) = str_split text"
proof -
  let ?words = "str_split text"
  let ?cs = "windows (nat w) ?words"
  from assms(1) have w: "0 < nat w" by simp
  have "split_into_chunks [text] w =
      Inr ([] @ concat (map (\<lambda>t. windows (nat w) (str_split t)) [text]))"
    by (simp only: split_into_chunks_def chunk_texts_eq [OF assms(1)])
  then have r: "split_into_chunks [text] w = Inr ?cs" by simp
  have len: "length ?cs = (length ?words + nat w - 1) div nat w"
    using w by (simp add: windows_def range_from_length)
  have rw: "real (nat w) = real_of_int w" using assms(1) by simp
  have "\<lceil>real (length ?words) / real (nat w)\<rceil> = int (length ?cs)"
    unfolding len by (rule ceiling_div_nat [OF w])
  then have l: "int (length ?cs) = \<lceil>real (length ?words) / real_of_int w\<rceil>"
    unfolding rw by (rule sym)
  have "map str_split ?cs =
      map (\<lambda>i. take (nat w) (drop i ?words)) (range_from 0 (length ?words) (nat w))"
    using w by (rule split_windows) (simp add: str_split_words)
  then have "concat (map str_split ?cs) = drop 0 ?words"
    by (simp only: range_from_concat [OF w])
  then have c: "concat (map str_split ?cs) = ?words" by simp
  from r l c show ?thesis by blast
qed

theorem split_into_chunks_count_and_words_witness:
  "(0::int) < 2 \<and> str_split ''fever headache cough'' \<noteq> []
   \<and> (\<exists>cs. split_into_chunks [''fever headache cough''] 2 = Inr cs
     \<and> int (length cs) = \<lceil>real (length (str_split ''fever headache cough'')) / real_of_int 2\<rceil>
     \<and> concat (map str_split cs) = str_split ''fever headache cough'')"
proof -
  have h1: "(0::int) < 2" by simp
  have h2: "str_split ''fever headache cough'' \<noteq> []" by code_simp
  from split_into_chunks_count_and_words [OF h1 h2] h1 h2 show ?thesis by blast
qed

text \<open>
  C9: a chunk that \<open>split_into_chunks\<close> produced with window size \<open>w\<close> is returned
  unchanged, as the only chunk, when it is chunked alone with the same window size.
\<close>

theorem split_into_chunks_single_chunk_idempotent:
  assumes "0 < w" and "split_into_chunks texts w = Inr cs" and "c \<in> set cs"
  shows "split_into_chunks [c] w = Inr [c]"
proof -
  from assms(1) have w: "0 < nat w" by simp
  have "cs = [] @ concat (map (\<lambda>t. windows (nat w) (str_split t)) texts)"
    using assms(2) by (simp only: split_into_chunks_def chunk_texts_eq [OF assms(1)] sum.inject)
  with assms(3) obtain t where "c \<in> set (windows (nat w) (str_split t))" by auto
  then obtain i where ir: "i \<in> set (range_from 0 (length (str_split t)) (nat w))"
    and c: "c = str_join '' '' (take (nat w) (drop i (str_split t)))"
    by (auto simp: windows_def)
  from ir have i: "i < length (str_split t)" by (rule range_from_bound)
  let ?ws = "take (nat w) (drop i (str_split t))"
  have ok: "\<forall>x\<in>set ?ws. word_ok x"
    by (meson in_set_dropD in_set_takeD str_split_words)
  from i w have ne: "?ws \<noteq> []" by simp
  have "str_split c = ?ws" unfolding c using ok by (rule str_split_join)
  moreover have "windows (nat w) ?ws = [c]"
    unfolding c using ne by (intro windows_single) simp_all
  ultimately have "[] @ concat (map (\<lambda>t. windows (nat w) (str_split t)) [c]) = [c]"
    by simp
  then show ?thesis
    by (simp only: split_into_chunks_def chunk_texts_eq [OF assms(1)])
qed

theorem split_into_chunks_single_chunk_idempotent_witness:
  "(0::int) < 2
   \<and> split_into_chunks [''fever headache cough''] 2 = Inr [''fever headache'', ''cough'']
   \<and> ''cough'' \<in> set [''fever headache'', ''cough'']
   \<and> split_into_chunks [''cough''] 2 = Inr [''cough'']"
proof -
  have h1: "(0::int) < 2" by simp
  have h2: "split_into_chunks [''fever headache cough''] 2 = Inr [''fever headache'', ''cough'']"
    by code_simp
  have h3: "''cough'' \<in> set [''fever headache'', ''cough'']" by simp
  from split_into_chunks_single_chunk_idempotent [OF h1 h2 h3] h1 h2 h3 show ?thesis by blast
qed

section \<open>Retrieval and loading\<close>

lemma search_row_length: "length (search_row l2 vs q k) = k"
  by (simp add: search_row_def Let_def)

lemma search_row_labels:
  "i \<in> set (search_row l2 vs q k) \<Longrightarrow> i = - 1 \<or> (0 \<le> i \<and> i < int (length vs))"
proof -
  assume "i \<in> set (search_row l2 vs q k)"
  then consider j where "j \<in> set (take k (sort_key (\<lambda>i. l2 q (vs ! i)) [0..<length vs]))" "i = int j"
    | "i = - 1"
    by (auto simp: search_row_def Let_def)
  then show ?thesis
  proof cases
    case 1
    then have "j \<in> set (sort_key (\<lambda>i. l2 q (vs ! i)) [0..<length vs])" by (meson in_set_takeD)
    then have "j < length vs" by simp
    with 1 show ?thesis by simp
  next
    case 2
    then show ?thesis by simp
  qed
qed

lemma search_row_ge: "i \<in> set (search_row l2 vs q k) \<Longrightarrow> - 1 \<le> i"
  using search_row_labels [of i l2 vs q k] by linarith

lemma search_row_empty: "search_row l2 [] q k = replicate k (- 1)"
  by (simp add: search_row_def)

lemma search_row_all:
  "search_row l2 vs q (length vs) = map int (sort_key (\<lambda>i. l2 q (vs ! i)) [0..<length vs])"
  by (simp add: search_row_def)

lemma py_getitem_chunk_at:
  assumes "chunks \<noteq> []" "- 1 \<le> i" "i < int (length chunks)"
  shows "py_getitem chunks i = Inr (chunk_at chunks i)"
proof (cases "i < 0")
  case True
  with assms(2) have "i = - 1" by simp
  moreover have "nat (int (length chunks) - 1) = length chunks - 1" by simp
  moreover from assms(1) have "0 < length chunks" by simp
  ultimately show ?thesis using assms(1)
    by (simp add: py_getitem_def chunk_at_def last_conv_nth Suc_le_eq)
next
  case False
  with assms(3) show ?thesis by (simp add: py_getitem_def chunk_at_def)
qed

lemma collect_chunks_eq:
  assumes "chunks \<noteq> []"
  shows "\<forall>i\<in>set row. - 1 \<le> i \<Longrightarrow>
    collect_chunks chunks row retrieved =
      Inr (retrieved @ map (chunk_at chunks) (filter (\<lambda>i. i < int (length chunks)) row))"
proof (induction row arbitrary: retrieved)
  case Nil
  then show ?case by simp
next
  case (Cons i row)
  show ?case
  proof (cases "i < int (length chunks)")
    case True
    with Cons.prems assms have "py_getitem chunks i = Inr (chunk_at chunks i)"
      by (intro py_getitem_chunk_at) simp_all
    with True Cons show ?thesis by simp
  next
    case False
    with Cons show ?thesis by simp
  qed
qed

lemma index_search_single:
  assumes "length q = idx_dim ix" "0 < k"
  shows "index_search l2 ix [q] k = Inr [search_row l2 (idx_vectors ix) q (nat k)]"
  using assms by (simp add: index_search_def)

lemma retrieve_try_eq:
  assumes "chunks \<noteq> []" "0 < k" "enc [query] = Inr [q]" "length q = idx_dim ix"
  shows "retrieve_try l2 enc ix chunks query k =
    Inr (str_join blank_line (map (chunk_at chunks) (filter (\<lambda>i. i < int (length chunks))
      (search_row l2 (idx_vectors ix) q (nat (min k (int (length chunks))))))))"
proof -
  let ?m = "min k (int (length chunks))"
  let ?row = "search_row l2 (idx_vectors ix) q (nat ?m)"
  from assms(1,2) have m: "0 < ?m" by simp
  have s: "index_search l2 ix [q] ?m = Inr [?row]"
    using assms(4) m by (rule index_search_single)
  have g: "py_getitem [?row] 0 = Inr ?row" by (simp add: py_getitem_def)
  have "\<forall>i\<in>set ?row. - 1 \<le> i" by (auto dest: search_row_ge)
  with assms(1) have c: "collect_chunks chunks ?row [] =
      Inr ([] @ map (chunk_at chunks) (filter (\<lambda>i. i < int (length chunks)) ?row))"
    by (rule collect_chunks_eq)
  show ?thesis
    by (simp only: retrieve_try_def assms(3) s g c sum.case append_Nil)
qed

lemma retrieve_context_try:
  assumes "embedder st = Some enc" "faiss_index st = Some ix" "guideline_chunks st \<noteq> []"
  shows "retrieve_context l2 st query k =
    (case retrieve_try l2 enc ix (guideline_chunks st) query k of
       Inl e \<Rightarrow> retrieval_error | Inr context \<Rightarrow> context)"
  using assms by (simp add: retrieve_context_def)

lemma split_two_pages:
  "split_into_chunks [''fever headache'', ''cough''] 200 = Inr [''fever headache'', ''cough'']"
  by code_simp

lemma split_rash: "split_into_chunks [''rash itching''] 200 = Inr [''rash itching'']"
  by code_simp

lemma strip_pages:
  "str_strip ''fever headache'' \<noteq> []" "str_strip ''cough'' \<noteq> []" "str_strip ''rash itching'' \<noteq> []"
  by code_simp+

lemma load_no_folder: "load_guidelines world_no_folder initial_state = (False, state_no_folder)"
  by (simp add: load_guidelines_def world_no_folder_def initial_state_def state_no_folder_def
      empty_index_fallback_def demo_encode_def demo_embed_def shape1_def IndexFlatL2_def)

lemma load_two_pages: "load_guidelines world_two_pages initial_state = (True, state_two_pages)"
  by (simp add: load_guidelines_def world_two_pages_def initial_state_def state_two_pages_def
      strip_pages split_two_pages demo_encode_def demo_embed_def shape1_def IndexFlatL2_def
      index_add_def)

lemma load_encode_raises:
  "load_guidelines world_encode_raises state_two_pages =
     (False, state_two_pages\<lparr>embedder := Some failing_encode, guideline_chunks := [''rash itching'']\<rparr>)"
  by (simp add: load_guidelines_def world_encode_raises_def state_two_pages_def
      strip_pages split_rash failing_encode_def)

lemma retrieve_no_folder:
  "retrieve_context demo_l2 state_no_folder ''anything'' 3 = no_pdf_sentinel"
  by (simp add: retrieve_context_def state_no_folder_def retrieve_try_def demo_encode_def
      demo_embed_def index_search_def search_row_def py_getitem_def)

lemma empty_index_fallback_False: "fst (empty_index_fallback enc s st) = False"
  by (simp add: empty_index_fallback_def split: sum.splits)

lemma load_guidelines_True:
  assumes "load_guidelines w st0 = (True, st)"
  obtains enc chunks embeddings dm where
    "new_embedder w = Inr enc" "guidelines_exists w" "pdf_files w \<noteq> []"
    "split_into_chunks (read_pdfs (have_pypdf2 w) (pdf_files w) []) 200 = Inr chunks"
    "chunks \<noteq> []" "enc chunks = Inr embeddings" "shape1 embeddings = Inr dm"
    "list_all (\<lambda>x. length x = dm) embeddings"
    "st = st0\<lparr>embedder := Some enc, guideline_chunks := chunks,
        faiss_index := Some \<lparr>idx_dim = dm, idx_vectors = embeddings\<rparr>\<rparr>"
proof -
  from assms obtain enc where e: "new_embedder w = Inr enc"
    by (cases "new_embedder w") (simp_all add: load_guidelines_def)
  have nf: "fst (empty_index_fallback enc s st') \<noteq> True" for s st'
    by (simp add: empty_index_fallback_False)
  from assms e have ex: "guidelines_exists w" and pf: "pdf_files w \<noteq> []"
    using nf by (auto simp: load_guidelines_def Let_def split: if_splits dest: arg_cong [where f = fst])
  let ?texts = "read_pdfs (have_pypdf2 w) (pdf_files w) []"
  from assms e ex pf obtain chunks where c: "split_into_chunks ?texts 200 = Inr chunks"
    by (cases "split_into_chunks ?texts 200") (simp_all add: load_guidelines_def)
  from assms e ex pf c have cn: "chunks \<noteq> []"
    using nf by (auto simp: load_guidelines_def Let_def split: if_splits dest: arg_cong [where f = fst])
  from assms e ex pf c cn obtain embeddings where m: "enc chunks = Inr embeddings"
    by (cases "enc chunks") (simp_all add: load_guidelines_def)
  from assms e ex pf c cn m obtain dm where d: "shape1 embeddings = Inr dm"
    by (cases "shape1 embeddings") (simp_all add: load_guidelines_def)
  from assms e ex pf c cn m d have a: "list_all (\<lambda>x. length x = dm) embeddings"
    and s: "st = st0\<lparr>embedder := Some enc, guideline_chunks := chunks,
        faiss_index := Some \<lparr>idx_dim = dm, idx_vectors = embeddings\<rparr>\<rparr>"
    by (auto simp: load_guidelines_def Let_def index_add_def IndexFlatL2_def split: if_splits)
  from e ex pf c cn m d a s show thesis by (rule that)
qed

lemma collect_chunks_subset:
  "collect_chunks chunks row retrieved = Inr cs \<Longrightarrow> set cs \<subseteq> set retrieved \<union> set chunks"
proof (induction row arbitrary: retrieved)
  case Nil
  then show ?case by auto
next
  case (Cons i row)
  show ?case
  proof (cases "i < int (length chunks)")
    case True
    with Cons.prems obtain c where g: "py_getitem chunks i = Inr c"
      and r: "collect_chunks chunks row (retrieved @ [c]) = Inr cs"
      by (cases "py_getitem chunks i") simp_all
    from g have "c \<in> set chunks"
      by (auto simp: py_getitem_def split: if_splits)
    with Cons.IH [OF r] show ?thesis by auto
  next
    case False
    with Cons show ?thesis by simp
  qed
qed

lemma retrieve_try_subset:
  assumes "retrieve_try l2 enc ix chunks query k = Inr context"
  shows "\<exists>cs. set cs \<subseteq> set chunks \<and> context = str_join blank_line cs"
proof -
  from assms obtain row cs where "collect_chunks chunks row [] = Inr cs"
    and "context = str_join blank_line cs"
    by (auto simp: retrieve_try_def split: sum.splits)
  with collect_chunks_subset [of chunks row "[]" cs] show ?thesis by auto
qed


lemma retrieve_fallback_state:
  assumes "embedder st = Some enc" and "faiss_index st = Some \<lparr>idx_dim = dm, idx_vectors = []\<rparr>"
    and "guideline_chunks st = [sentinel]"
  shows "retrieve_context l2 st query k =
    (case enc [query] of
       Inr (q # qs) \<Rightarrow>
         if 0 < k \<and> list_all (\<lambda>x. length x = dm) (q # qs) then sentinel else retrieval_error
     | _ \<Rightarrow> retrieval_error)"
proof (cases "enc [query]")
  case (Inl e)
  then show ?thesis
    by (simp add: retrieve_context_def assms retrieve_try_def)
next
  case (Inr xq)
  show ?thesis
  proof (cases xq)
    case Nil
    with Inr show ?thesis
      by (simp add: retrieve_context_def assms retrieve_try_def index_search_def py_getitem_def)
  next
    case (Cons q qs)
    show ?thesis
    proof (cases "0 < k \<and> list_all (\<lambda>x. length x = dm) (q # qs)")
      case True
      then have m: "min k 1 = 1" by simp
      from True Inr Cons show ?thesis
        by (simp add: retrieve_context_def assms retrieve_try_def index_search_def m
            search_row_empty py_getitem_def blank_line_def)
    next
      case False
      with Inr Cons show ?thesis
        by (auto simp: retrieve_context_def assms retrieve_try_def index_search_def)
    qed
  qed
qed

lemma load_no_documents_state:
  assumes "\<not> guidelines_exists w \<or> pdf_files w = []"
  shows "load_guidelines w st0 =
    (case new_embedder w of
       Inl e \<Rightarrow> (False, st0)
     | Inr enc \<Rightarrow>
         (case enc [''No guidelines available''] of
            Inr (v # vs) \<Rightarrow>
              (False, st0\<lparr>embedder := Some enc,
                 faiss_index := Some \<lparr>idx_dim = length v, idx_vectors = []\<rparr>,
                 guideline_chunks := [no_pdf_sentinel]\<rparr>)
          | _ \<Rightarrow> (False, st0\<lparr>embedder := Some enc\<rparr>)))"
  using assms
  by (auto simp: load_guidelines_def Let_def empty_index_fallback_def shape1_def IndexFlatL2_def
      split: sum.splits list.splits)

lemma retrieve_unloaded:
  "retrieve_context l2 initial_state query k = not_available"
  "retrieve_context l2 (initial_state\<lparr>embedder := Some enc\<rparr>) query k = not_available"
  by (simp_all add: retrieve_context_def initial_state_def)

text \<open>
  C2: in a loaded state (embedder and index present, chunk table not empty) and for a
  positive \<open>k\<close>, \<open>retrieve_context\<close> encodes the query as a batch of one, searches
  the index with \<open>min(k, len(guideline_chunks))\<close>, looks the returned labels up in the
  chunk table and returns the texts joined by a blank line. The embedder is taken to
  return one vector of the dimension of the index for the query.
\<close>

theorem retrieve_context_loaded_result:
  assumes "embedder st = Some enc" and "faiss_index st = Some ix"
    and "guideline_chunks st \<noteq> []" and "0 < k"
    and "enc [query] = Inr [q]" and "length q = idx_dim ix"
  shows "\<exists>labels.
    index_search l2 ix [q] (min k (int (length (guideline_chunks st)))) = Inr [labels]
    \<and> length labels = nat (min k (int (length (guideline_chunks st))))
    \<and> retrieve_context l2 st query k =
        str_join blank_line (map (chunk_at (guideline_chunks st))
          (filter (\<lambda>i. i < int (length (guideline_chunks st))) labels))"
proof -
  let ?chunks = "guideline_chunks st"
  let ?m = "min k (int (length ?chunks))"
  let ?row = "search_row l2 (idx_vectors ix) q (nat ?m)"
  from assms(3,4) have m: "0 < ?m" by simp
  have s: "index_search l2 ix [q] ?m = Inr [?row]"
    using assms(6) m by (rule index_search_single)
  have l: "length ?row = nat ?m" by (rule search_row_length)
  have "retrieve_context l2 st query k =
      str_join blank_line (map (chunk_at ?chunks) (filter (\<lambda>i. i < int (length ?chunks)) ?row))"
    by (simp add: retrieve_context_try [OF assms(1,2,3)] retrieve_try_eq [where enc = enc and query = query, OF assms(3,4,5,6)])
  with s l show ?thesis by blast
qed

theorem retrieve_context_loaded_result_witness:
  "embedder state_two_pages = Some demo_encode
   \<and> faiss_index state_two_pages = Some \<lparr>idx_dim = 2, idx_vectors = [[14, 1], [5, 1]]\<rparr>
   \<and> guideline_chunks state_two_pages \<noteq> [] \<and> (0::int) < 1
   \<and> demo_encode [''cough''] = Inr [[5, 1]]
   \<and> (\<exists>labels.
      index_search demo_l2 \<lparr>idx_dim = 2, idx_vectors = [[14, 1], [5, 1]]\<rparr> [[5, 1]]
        (min 1 (int (length (guideline_chunks state_two_pages)))) = Inr [labels]
      \<and> length labels = nat (min 1 (int (length (guideline_chunks state_two_pages))))
      \<and> retrieve_context demo_l2 state_two_pages ''cough'' 1 =
          str_join blank_line (map (chunk_at (guideline_chunks state_two_pages))
            (filter (\<lambda>i. i < int (length (guideline_chunks state_two_pages))) labels)))"
proof -
  have h1: "embedder state_two_pages = Some demo_encode"
    and h2: "faiss_index state_two_pages = Some \<lparr>idx_dim = 2, idx_vectors = [[14, 1], [5, 1]]\<rparr>"
    and h3: "guideline_chunks state_two_pages \<noteq> []"
    by (simp_all add: state_two_pages_def)
  have h4: "(0::int) < 1" by simp
  have h5: "demo_encode [''cough''] = Inr [[5, 1]]"
    by (simp add: demo_encode_def demo_embed_def)
  have h6: "length [5, 1 :: int] = idx_dim \<lparr>idx_dim = 2, idx_vectors = [[14, 1], [5, 1 :: int]]\<rparr>"
    by simp
  from retrieve_context_loaded_result [where enc = demo_encode and query = "''cough''"
      and ?l2.0 = demo_l2, OF h1 h2 h3 h4 h5 h6] h1 h2 h3 h4 h5
  show ?thesis by blast
qed

text \<open>
  C3 as stated fails: after \<open>load_guidelines\<close> found no guidelines folder, the query
  returns the sentinel chunk, which is longer than the literal
  \<open>No clinical guidelines available.\<close>
\<close>

theorem no_documents_retrieve_counterexample:
  "\<not> guidelines_exists world_no_folder
   \<and> fst (load_guidelines world_no_folder initial_state) = False
   \<and> retrieve_context demo_l2 (snd (load_guidelines world_no_folder initial_state)) ''anything'' 3
       \<noteq> ''No clinical guidelines available.''"
proof -
  have "\<not> guidelines_exists world_no_folder" by (simp add: world_no_folder_def)
  then show ?thesis
    by (simp add: load_no_folder retrieve_no_folder no_pdf_sentinel_def)
qed

text \<open>
  C3, amended: when the guidelines folder does not exist or holds no PDF file,
  \<open>load_guidelines\<close> returns \<open>False\<close>, and every later \<open>retrieve_context\<close> call
  returns a text: if the embedder was loaded and has encoded the placeholder text, the
  sentinel chunk \<open>No clinical guidelines available. Please add PDF files to the
  guidelines folder.\<close> when \<open>k \<ge> 1\<close> and the query is encoded as a batch, not empty, of
  vectors of the dimension of the index, and \<open>Error retrieving clinical guidelines.\<close>
  otherwise; if the embedder could not be loaded or could not encode the placeholder text,
  index and chunk table are as before the call, so that a call from the unloaded state
  returns \<open>No clinical guidelines available.\<close>
\<close>

theorem load_guidelines_no_documents:
  assumes "\<not> guidelines_exists w \<or> pdf_files w = []"
  shows "fst (load_guidelines w st0) = False
    \<and> retrieve_context l2 (snd (load_guidelines w st0)) query k =
        (case new_embedder w of
           Inl e \<Rightarrow> retrieve_context l2 st0 query k
         | Inr enc \<Rightarrow>
             (case enc [''No guidelines available''] of
                Inr (v # vs) \<Rightarrow>
                  (case enc [query] of
                     Inr (q # qs) \<Rightarrow>
                       if 0 < k \<and> list_all (\<lambda>x. length x = length v) (q # qs)
                       then no_pdf_sentinel else retrieval_error
                   | _ \<Rightarrow> retrieval_error)
              | _ \<Rightarrow> retrieve_context l2 (st0\<lparr>embedder := Some enc\<rparr>) query k))
    \<and> retrieve_context l2 initial_state query k = not_available
    \<and> retrieve_context l2 (initial_state\<lparr>embedder := Some enc0\<rparr>) query k = not_available"
proof -
  note s = load_no_documents_state [OF assms, of st0]
  have 1: "fst (load_guidelines w st0) = False"
    unfolding s by (simp split: sum.splits list.splits)
  have 2: "retrieve_context l2 (snd (load_guidelines w st0)) query k =
        (case new_embedder w of
           Inl e \<Rightarrow> retrieve_context l2 st0 query k
         | Inr enc \<Rightarrow>
             (case enc [''No guidelines available''] of
                Inr (v # vs) \<Rightarrow>
                  (case enc [query] of
                     Inr (q # qs) \<Rightarrow>
                       if 0 < k \<and> list_all (\<lambda>x. length x = length v) (q # qs)
                       then no_pdf_sentinel else retrieval_error
                   | _ \<Rightarrow> retrieval_error)
              | _ \<Rightarrow> retrieve_context l2 (st0\<lparr>embedder := Some enc\<rparr>) query k))"
  proof (cases "new_embedder w")
    case (Inl e)
    then show ?thesis by (simp add: s)
  next
    case (Inr enc)
    show ?thesis
    proof (cases "enc [''No guidelines available'']")
      case (Inl e)
      with Inr show ?thesis by (simp add: s)
    next
      case r: (Inr rows)
      show ?thesis
      proof (cases rows)
        case Nil
        with Inr r show ?thesis by (simp add: s)
      next
        case (Cons v vs)
        let ?st = "st0\<lparr>embedder := Some enc,
                 faiss_index := Some \<lparr>idx_dim = length v, idx_vectors = []\<rparr>,
                 guideline_chunks := [no_pdf_sentinel]\<rparr>"
        have "retrieve_context l2 ?st query k =
          (case enc [query] of
             Inr (q # qs) \<Rightarrow>
               if 0 < k \<and> list_all (\<lambda>x. length x = length v) (q # qs)
               then no_pdf_sentinel else retrieval_error
           | _ \<Rightarrow> retrieval_error)"
          by (rule retrieve_fallback_state) simp_all
        with Inr r Cons show ?thesis by (simp add: s)
      qed
    qed
  qed
  from 1 2 show ?thesis by (simp add: retrieve_unloaded)
qed

theorem load_guidelines_no_documents_witness:
  "pdf_files world_no_folder = []
   \<and> fst (load_guidelines world_no_folder initial_state) = False
   \<and> retrieve_context demo_l2 (snd (load_guidelines world_no_folder initial_state)) ''fever'' 3
       = no_pdf_sentinel"
proof -
  have h0: "pdf_files world_no_folder = []" by (simp add: world_no_folder_def)
  then have h1: "\<not> guidelines_exists world_no_folder \<or> pdf_files world_no_folder = []"
    by simp
  have n: "new_embedder world_no_folder = Inr demo_encode" by (simp add: world_no_folder_def)
  from load_guidelines_no_documents [OF h1, of initial_state demo_l2 "''fever''" 3] h0 show ?thesis
    by (simp add: n demo_encode_def demo_embed_def)
qed

text \<open>
  C4 as stated fails: after the call that found no guidelines folder the chunk table holds
  one text and the index holds no vector.
\<close>

theorem fallback_index_alignment_counterexample:
  "fst (load_guidelines world_no_folder initial_state) = False
   \<and> faiss_index (snd (load_guidelines world_no_folder initial_state))
       = Some \<lparr>idx_dim = 2, idx_vectors = []\<rparr>
   \<and> length (guideline_chunks (snd (load_guidelines world_no_folder initial_state))) = 1"
  by (simp add: load_no_folder state_no_folder_def)

text \<open>
  C4, amended: after every \<open>load_guidelines\<close> call that returned \<open>True\<close> the index
  holds one vector per entry of the chunk table, and vector \<open>i\<close> is the embedding of
  chunk \<open>i\<close>. The embedder is taken to return, whenever it returns, the embeddings of
  its inputs in order.
\<close>

theorem load_guidelines_True_alignment:
  assumes "load_guidelines w st0 = (True, st)" and "new_embedder w = Inr enc"
    and "\<forall>ts vs. enc ts = Inr vs \<longrightarrow> vs = map emb ts"
  shows "\<exists>ix. embedder st = Some enc \<and> faiss_index st = Some ix
    \<and> length (idx_vectors ix) = length (guideline_chunks st)
    \<and> (\<forall>i<length (guideline_chunks st). idx_vectors ix ! i = emb (guideline_chunks st ! i))"
proof -
  from assms(1) obtain enc' chunks embeddings dm where e: "new_embedder w = Inr enc'"
    and m: "enc' chunks = Inr embeddings"
    and s: "st = st0\<lparr>embedder := Some enc', guideline_chunks := chunks,
        faiss_index := Some \<lparr>idx_dim = dm, idx_vectors = embeddings\<rparr>\<rparr>"
    by (rule load_guidelines_True)
  from e assms(2) have ee: "enc' = enc" by simp
  from m assms(3) have v: "embeddings = map emb chunks" by (simp add: ee)
  show ?thesis by (simp add: s ee v)
qed

theorem load_guidelines_True_alignment_witness:
  "load_guidelines world_two_pages initial_state = (True, state_two_pages)
   \<and> new_embedder world_two_pages = Inr demo_encode
   \<and> (\<exists>ix. embedder state_two_pages = Some demo_encode
        \<and> faiss_index state_two_pages = Some ix
        \<and> length (idx_vectors ix) = length (guideline_chunks state_two_pages)
        \<and> idx_vectors ix ! 0 = demo_embed (guideline_chunks state_two_pages ! 0)
        \<and> idx_vectors ix ! 1 = demo_embed (guideline_chunks state_two_pages ! 1))"
proof -
  have h2: "new_embedder world_two_pages = Inr demo_encode"
    by (simp add: world_two_pages_def)
  have h3: "\<forall>ts vs. demo_encode ts = Inr vs \<longrightarrow> vs = map demo_embed ts"
    by (auto simp: demo_encode_def)
  have n: "length (guideline_chunks state_two_pages) = 2"
    by (simp add: state_two_pages_def)
  from load_guidelines_True_alignment [OF load_two_pages h2 h3] obtain ix where
    "embedder state_two_pages = Some demo_encode" "faiss_index state_two_pages = Some ix"
    "length (idx_vectors ix) = length (guideline_chunks state_two_pages)"
    "\<forall>i<length (guideline_chunks state_two_pages).
        idx_vectors ix ! i = demo_embed (guideline_chunks state_two_pages ! i)"
    by blast
  with load_two_pages h2 n show ?thesis by auto
qed

text \<open>
  C6: in a loaded state, an exception raised while the query is encoded, while the index
  is searched or while the chunks are looked up leaves the \<open>try\<close> block as an exception,
  and \<open>retrieve_context\<close> returns \<open>Error retrieving clinical guidelines.\<close>
\<close>

theorem retrieve_context_exception_caught:
  assumes "embedder st = Some enc" and "faiss_index st = Some ix"
    and "guideline_chunks st \<noteq> []"
    and "enc [query] = Inl e
      \<or> (\<exists>xq. enc [query] = Inr xq
            \<and> index_search l2 ix xq (min k (int (length (guideline_chunks st)))) = Inl e)
      \<or> (\<exists>xq indices. enc [query] = Inr xq
            \<and> index_search l2 ix xq (min k (int (length (guideline_chunks st)))) = Inr indices
            \<and> (py_getitem indices 0 = Inl e
                \<or> (\<exists>row. py_getitem indices 0 = Inr row
                      \<and> collect_chunks (guideline_chunks st) row [] = Inl e)))"
  shows "retrieve_try l2 enc ix (guideline_chunks st) query k = Inl e
    \<and> retrieve_context l2 st query k = retrieval_error"
proof -
  from assms(4) have t: "retrieve_try l2 enc ix (guideline_chunks st) query k = Inl e"
    by (auto simp: retrieve_try_def)
  then show ?thesis by (simp add: retrieve_context_try [OF assms(1,2,3)])
qed

theorem retrieve_context_exception_caught_witness:
  "embedder (state_two_pages\<lparr>embedder := Some failing_encode\<rparr>) = Some failing_encode
   \<and> guideline_chunks (state_two_pages\<lparr>embedder := Some failing_encode\<rparr>) \<noteq> []
   \<and> failing_encode [''fever''] = Inl ExternalError
   \<and> retrieve_context demo_l2 (state_two_pages\<lparr>embedder := Some failing_encode\<rparr>) ''fever'' 3
       = ''Error retrieving clinical guidelines.''"
proof -
  let ?st = "state_two_pages\<lparr>embedder := Some failing_encode\<rparr>"
  have h1: "embedder ?st = Some failing_encode"
    and h2: "faiss_index ?st = Some \<lparr>idx_dim = 2, idx_vectors = [[14, 1], [5, 1]]\<rparr>"
    and h3: "guideline_chunks ?st \<noteq> []"
    by (simp_all add: state_two_pages_def)
  have h4: "failing_encode [''fever''] = Inl ExternalError"
    by (simp add: failing_encode_def)
  from retrieve_context_exception_caught [where enc = failing_encode and query = "''fever''"
      and e = ExternalError and ?l2.0 = demo_l2 and k = 3, OF h1 h2 h3] h4 h1 h3
  show ?thesis by (simp add: retrieval_error_def)
qed

text \<open>
  C7 as stated fails: the index that \<open>load_guidelines\<close> leaves when there is no
  guidelines folder holds \<open>n = 0\<close> vectors next to one chunk; with \<open>k = 3\<close> the search
  is made with \<open>min(3, 1) = 1\<close> and returns one label, \<open>-1\<close>, and the call returns one
  chunk.
\<close>

theorem search_unaligned_index_counterexample:
  "load_guidelines world_no_folder initial_state = (False, state_no_folder)
   \<and> faiss_index state_no_folder = Some \<lparr>idx_dim = 2, idx_vectors = []\<rparr>
   \<and> int (length ([] :: int list list)) < 3
   \<and> demo_encode [''fever''] = Inr [[5, 1]]
   \<and> index_search demo_l2 \<lparr>idx_dim = 2, idx_vectors = []\<rparr> [[5, 1]]
        (min 3 (int (length (guideline_chunks state_no_folder)))) = Inr [[- 1]]
   \<and> retrieve_context demo_l2 state_no_folder ''fever'' 3 = no_pdf_sentinel"
  by (simp add: load_no_folder)
    (simp add: state_no_folder_def demo_encode_def demo_embed_def index_search_def
      search_row_def retrieve_context_def retrieve_try_def py_getitem_def)

text \<open>
  C7, amended: when the index holds \<open>n \<ge> 1\<close> vectors, one per entry of the chunk table
  (as after a \<open>load_guidelines\<close> call that returned \<open>True\<close>), and \<open>k > n\<close>, the search
  that \<open>retrieve_context\<close> makes returns exactly \<open>n\<close> labels, one for each indexed
  vector, and the call returns the \<open>n\<close> chunks without an error. The embedder is taken to
  return one vector of the dimension of the index for the query.
\<close>

theorem retrieve_context_k_clamped:
  assumes "embedder st = Some enc" and "faiss_index st = Some ix"
    and "length (idx_vectors ix) = n" and "length (guideline_chunks st) = n"
    and "0 < n" and "int n < k"
    and "enc [query] = Inr [q]" and "length q = idx_dim ix"
  shows "\<exists>js. index_search l2 ix [q] (min k (int (length (guideline_chunks st)))) = Inr [map int js]
    \<and> length js = n \<and> distinct js \<and> set js = {..<n}
    \<and> retrieve_try l2 enc ix (guideline_chunks st) query k =
         Inr (str_join blank_line (map (\<lambda>j. guideline_chunks st ! j) js))
    \<and> retrieve_context l2 st query k =
         str_join blank_line (map (\<lambda>j. guideline_chunks st ! j) js)"
proof -
  let ?chunks = "guideline_chunks st"
  let ?js = "sort_key (\<lambda>i. l2 q (idx_vectors ix ! i)) [0..<n]"
  from assms(4,6) have m: "min k (int (length ?chunks)) = int n" by simp
  from assms(6) have m2: "min k (int n) = int n" by simp
  from assms(5,6) have k: "0 < k" by simp
  from assms(4,5) have ne: "?chunks \<noteq> []" by auto
  have row: "search_row l2 (idx_vectors ix) q n = map int ?js"
    using search_row_all [of l2 "idx_vectors ix" q] by (simp add: assms(3))
  have s: "index_search l2 ix [q] (min k (int (length ?chunks))) = Inr [map int ?js]"
    unfolding m using assms(5,8) by (simp add: index_search_def row)
  have l: "length ?js = n" by simp
  have d: "distinct ?js" by simp
  have e: "set ?js = {..<n}" by auto
  have f: "filter (\<lambda>i. i < int n) (map int ?js) = map int ?js"
    by (rule filter_True) auto
  have "map (chunk_at ?chunks) (map int ?js) = map (\<lambda>j. ?chunks ! j) ?js"
    by (simp add: chunk_at_def)
  moreover have "retrieve_try l2 enc ix ?chunks query k =
      Inr (str_join blank_line (map (chunk_at ?chunks) (filter (\<lambda>i. i < int n)
        (search_row l2 (idx_vectors ix) q (nat (int n))))))"
    using retrieve_try_eq [where enc = enc and query = query, OF ne k assms(7,8), of l2]
    by (simp only: m2 assms(4))
  ultimately have t: "retrieve_try l2 enc ix ?chunks query k =
      Inr (str_join blank_line (map (\<lambda>j. ?chunks ! j) ?js))"
    by (simp only: nat_int row f)
  have "retrieve_context l2 st query k = str_join blank_line (map (\<lambda>j. ?chunks ! j) ?js)"
    by (simp add: retrieve_context_try [OF assms(1,2) ne] t)
  with s l d e t show ?thesis by blast
qed

theorem retrieve_context_k_clamped_witness:
  "embedder state_two_pages = Some demo_encode
   \<and> faiss_index state_two_pages = Some \<lparr>idx_dim = 2, idx_vectors = [[14, 1], [5, 1]]\<rparr>
   \<and> length (guideline_chunks state_two_pages) = 2 \<and> int 2 < 5
   \<and> demo_encode [''cough''] = Inr [[5, 1]]
   \<and> (\<exists>js. length js = 2 \<and> distinct js \<and> set js = {..<2}
        \<and> retrieve_context demo_l2 state_two_pages ''cough'' 5 =
            str_join blank_line (map (\<lambda>j. guideline_chunks state_two_pages ! j) js))"
proof -
  have h1: "embedder state_two_pages = Some demo_encode"
    and h2: "faiss_index state_two_pages = Some \<lparr>idx_dim = 2, idx_vectors = [[14, 1], [5, 1]]\<rparr>"
    and h4: "length (guideline_chunks state_two_pages) = 2"
    by (simp_all add: state_two_pages_def)
  have h3: "length (idx_vectors \<lparr>idx_dim = 2, idx_vectors = [[14, 1], [5, 1 :: int]]\<rparr>) = 2"
    by simp
  have h5: "0 < (2::nat)" and h6: "int 2 < 5" by simp_all
  have h7: "demo_encode [''cough''] = Inr [[5, 1]]"
    by (simp add: demo_encode_def demo_embed_def)
  have h8: "length [5, 1 :: int] = idx_dim \<lparr>idx_dim = 2, idx_vectors = [[14, 1], [5, 1 :: int]]\<rparr>"
    by simp
  from retrieve_context_k_clamped [where enc = demo_encode and query = "''cough''"
      and ?l2.0 = demo_l2, OF h1 h2 h3 h4 h5 h6 h7 h8] h1 h2 h4 h6 h7
  show ?thesis by blast
qed

text \<open>
  C8 as stated fails: a repeat call in which the embedder raises while it encodes the new
  chunks returns \<open>False\<close> with the chunk table of the new corpus published next to
  the index of the old one.
\<close>

theorem reload_partial_state_counterexample:
  "load_guidelines world_two_pages initial_state = (True, state_two_pages)
   \<and> fst (load_guidelines world_encode_raises state_two_pages) = False
   \<and> guideline_chunks (snd (load_guidelines world_encode_raises state_two_pages))
       = [''rash itching'']
   \<and> faiss_index (snd (load_guidelines world_encode_raises state_two_pages))
       = Some \<lparr>idx_dim = 2, idx_vectors = [[14, 1], [5, 1]]\<rparr>
   \<and> faiss_index state_two_pages = Some \<lparr>idx_dim = 2, idx_vectors = [[14, 1], [5, 1]]\<rparr>"
  by (simp add: load_two_pages load_encode_raises) (simp add: state_two_pages_def)

text \<open>
  C8, amended: a \<open>load_guidelines\<close> call that returns \<open>True\<close> leaves a state that does
  not depend on the state before the call, whose chunk table is the chunking of the corpus
  just read; every later \<open>retrieve_context\<close> result is the error text or a blank-line
  join of chunks of that table.
\<close>

theorem load_guidelines_True_replaces_state:
  assumes "load_guidelines w st_old = (True, st)"
  shows "load_guidelines w st_other = (True, st)
    \<and> split_into_chunks (read_pdfs (have_pypdf2 w) (pdf_files w) []) 200 = Inr (guideline_chunks st)
    \<and> (retrieve_context l2 st query k = retrieval_error
        \<or> (\<exists>cs. set cs \<subseteq> set (guideline_chunks st)
              \<and> retrieve_context l2 st query k = str_join blank_line cs))"
proof -
  from assms obtain enc chunks embeddings dm where e: "new_embedder w = Inr enc"
    and ex: "guidelines_exists w" and pf: "pdf_files w \<noteq> []"
    and c: "split_into_chunks (read_pdfs (have_pypdf2 w) (pdf_files w) []) 200 = Inr chunks"
    and cn: "chunks \<noteq> []" and m: "enc chunks = Inr embeddings"
    and d: "shape1 embeddings = Inr dm" and a: "list_all (\<lambda>x. length x = dm) embeddings"
    and s: "st = st_old\<lparr>embedder := Some enc, guideline_chunks := chunks,
        faiss_index := Some \<lparr>idx_dim = dm, idx_vectors = embeddings\<rparr>\<rparr>"
    by (rule load_guidelines_True)
  have 1: "load_guidelines w st_other = (True, st)"
    using e ex pf c cn m d a
    by (simp add: load_guidelines_def index_add_def IndexFlatL2_def s)
  have 2: "split_into_chunks (read_pdfs (have_pypdf2 w) (pdf_files w) []) 200
      = Inr (guideline_chunks st)"
    by (simp add: c s)
  have l: "embedder st = Some enc"
    "faiss_index st = Some \<lparr>idx_dim = dm, idx_vectors = embeddings\<rparr>"
    "guideline_chunks st \<noteq> []"
    using cn by (simp_all add: s)
  have 3: "retrieve_context l2 st query k = retrieval_error
        \<or> (\<exists>cs. set cs \<subseteq> set (guideline_chunks st)
              \<and> retrieve_context l2 st query k = str_join blank_line cs)"
  proof (cases "retrieve_try l2 enc \<lparr>idx_dim = dm, idx_vectors = embeddings\<rparr> (guideline_chunks st) query k")
    case (Inl e)
    then show ?thesis by (simp add: retrieve_context_try [OF l])
  next
    case (Inr ctx)
    with retrieve_try_subset [OF Inr] show ?thesis
      by (simp add: retrieve_context_try [OF l])
  qed
  from 1 2 3 show ?thesis by blast
qed

theorem load_guidelines_True_replaces_state_witness:
  "load_guidelines world_two_pages initial_state = (True, state_two_pages)
   \<and> load_guidelines world_two_pages state_no_folder = (True, state_two_pages)
   \<and> split_into_chunks
        (read_pdfs (have_pypdf2 world_two_pages) (pdf_files world_two_pages) []) 200
       = Inr (guideline_chunks state_two_pages)
   \<and> (retrieve_context demo_l2 state_two_pages ''cough'' 1 = retrieval_error
        \<or> (\<exists>cs. set cs \<subseteq> set (guideline_chunks state_two_pages)
              \<and> retrieve_context demo_l2 state_two_pages ''cough'' 1 = str_join blank_line cs))"
  using load_guidelines_True_replaces_state [where st_other = state_no_folder
      and ?l2.0 = demo_l2 and query = "''cough''" and k = 1, OF load_two_pages]
    load_two_pages by blast



section \<open>The referral urgency\<close>









end
